theory Spec2Isabelle
  imports Main "HOL-Library.Char_ord" "HOL-Library.List_Lexorder" "HOL-Library.AList"
begin

section \<open>Go strings\<close>

text \<open>
  Go strings are byte sequences; they are modelled as \<open>string\<close> (a list of 8-bit
  characters). The functions of this section are the Go library functions the
  repository calls (\<open>strings.Split\<close> with a one-byte separator, \<open>strings.Join\<close>,
  \<open>strings.Contains\<close> with a one-byte pattern, \<open>strings.TrimSpace\<close>,
  \<open>strconv.Atoi\<close>), written out so that the code using them can be evaluated.
\<close>

definition nl :: string where
  "nl = [CHR 0x0A]"

text \<open>\<open>strings.Split(s, sep)\<close> for a separator of one byte: the pieces between the
  separators, in order; a string without separator (the empty one too) is one piece.\<close>

fun Split :: "string \<Rightarrow> char \<Rightarrow> string list" where
  "Split [] sep = [[]]"
| "Split (c # cs) sep =
     (if c = sep then [] # Split cs sep
      else (case Split cs sep of
              [] \<Rightarrow> [[c]]
            | w # ws \<Rightarrow> (c # w) # ws))"

text \<open>\<open>strings.Join(elems, sep)\<close>.\<close>

fun Join :: "string list \<Rightarrow> string \<Rightarrow> string" where
  "Join [] sep = []"
| "Join [w] sep = w"
| "Join (w # v # ws) sep = w @ sep @ Join (v # ws) sep"

text \<open>\<open>strings.Contains(s, c)\<close> for a pattern of one byte.\<close>

definition Contains :: "string \<Rightarrow> char \<Rightarrow> bool" where
  "Contains s c = (c \<in> set s)"

text \<open>The UTF-8 encodings of the code points \<open>unicode.IsSpace\<close> accepts: tab, line
  feed, vertical tab, form feed, carriage return, space, U+0085, U+00A0, U+1680,
  U+2000 to U+200A, U+2028, U+2029, U+202F, U+205F and U+3000.\<close>

definition spaceRunes :: "string list" where
  "spaceRunes =
     [[CHR 0x09], [CHR 0x0A], [CHR 0x0B], [CHR 0x0C], [CHR 0x0D], [CHR 0x20],
      [CHR 0xC2, CHR 0x85], [CHR 0xC2, CHR 0xA0],
      [CHR 0xE1, CHR 0x9A, CHR 0x80],
      [CHR 0xE2, CHR 0x80, CHR 0x80], [CHR 0xE2, CHR 0x80, CHR 0x81],
      [CHR 0xE2, CHR 0x80, CHR 0x82], [CHR 0xE2, CHR 0x80, CHR 0x83],
      [CHR 0xE2, CHR 0x80, CHR 0x84], [CHR 0xE2, CHR 0x80, CHR 0x85],
      [CHR 0xE2, CHR 0x80, CHR 0x86], [CHR 0xE2, CHR 0x80, CHR 0x87],
      [CHR 0xE2, CHR 0x80, CHR 0x88], [CHR 0xE2, CHR 0x80, CHR 0x89],
      [CHR 0xE2, CHR 0x80, CHR 0x8A],
      [CHR 0xE2, CHR 0x80, CHR 0xA8], [CHR 0xE2, CHR 0x80, CHR 0xA9],
      [CHR 0xE2, CHR 0x80, CHR 0xAF], [CHR 0xE2, CHR 0x81, CHR 0x9F],
      [CHR 0xE3, CHR 0x80, CHR 0x80]]"

text \<open>The encoding of a space at the front of the string, if there is one.\<close>

definition leadingSpace :: "string list \<Rightarrow> string \<Rightarrow> string option" where
  "leadingSpace rs s = find (\<lambda>r. take (length r) s = r) rs"

text \<open>Dropping spaces from the front; every step drops at least one byte, and the
  number of steps is bounded by the length of the string.\<close>

fun trimLeft :: "nat \<Rightarrow> string list \<Rightarrow> string \<Rightarrow> string" where
  "trimLeft 0 rs s = s"
| "trimLeft (Suc n) rs s =
     (case leadingSpace rs s of
        None \<Rightarrow> s
      | Some r \<Rightarrow> if r = [] then s else trimLeft n rs (drop (length r) s))"

text \<open>\<open>strings.TrimSpace\<close>: all leading and trailing white space removed.\<close>

definition TrimSpace :: "string \<Rightarrow> string" where
  "TrimSpace s =
     (let l = trimLeft (length s) spaceRunes s
      in rev (trimLeft (length l) (map rev spaceRunes) (rev l)))"

text \<open>\<open>strconv.Atoi\<close>: an optional sign and one or more decimal digits, within the
  64-bit range of Go's \<open>int\<close>; anything else is an error.\<close>

definition isDigit :: "char \<Rightarrow> bool" where
  "isDigit c = (CHR ''0'' \<le> c \<and> c \<le> CHR ''9'')"

definition digitsValue :: "string \<Rightarrow> int" where
  "digitsValue ds = foldl (\<lambda>n c. 10 * n + (of_char c - 48)) 0 ds"

definition Atoi :: "string \<Rightarrow> int option" where
  "Atoi s =
     (let neg = (s \<noteq> [] \<and> hd s = CHR ''-'');
          ds = (if s \<noteq> [] \<and> (hd s = CHR ''-'' \<or> hd s = CHR ''+'') then tl s else s)
      in if ds = [] \<or> \<not> list_all isDigit ds then None
         else (let v = (if neg then - digitsValue ds else digitsValue ds)
               in if - (2 ^ 63) \<le> v \<and> v < 2 ^ 63 then Some v else None))"

section \<open>gitutil: the wrapper around the git command\<close>

subsection \<open>Running a command\<close>

text \<open>
  A call of \<open>exec.Command("git", args...).Run()\<close> is a request to the host: it is
  identified by the working directory of the command and the arguments after \<open>git\<close>.
  The host answers with what the command wrote to its standard output and standard
  error and with the error of \<open>Run\<close> (\<open>None\<close> for \<open>nil\<close>). The answer may depend on
  every command run before, so the host is a function of the log of earlier
  invocations, and every operation of the wrapper takes the log and returns it
  extended.
\<close>

type_synonym invocation = "string \<times> string list"

record cmd_result =
  Stdout :: string
  Stderr :: string
  RunErr :: "string option"

type_synonym host = "invocation list \<Rightarrow> invocation \<Rightarrow> cmd_result"

record Git =
  rootDir :: string
  userName :: string
  userEmail :: string

record GitError =
  Root :: string
  Args :: "string list"
  Output :: string
  ErrorOutput :: string
  err :: string

text \<open>The constructor \<open>Error(output, errorOutput, err, root, args...)\<close>.\<close>

definition Error :: "string \<Rightarrow> string \<Rightarrow> string \<Rightarrow> string \<Rightarrow> string list \<Rightarrow> GitError" where
  "Error output errorOutput e root args =
     \<lparr>Root = root, Args = args, Output = output, ErrorOutput = errorOutput, err = e\<rparr>"

text \<open>The method \<open>GitError.Error()\<close>. The first assignment of the source (the root in
  parentheses) is overwritten by the second, so the root is not part of the text.\<close>

definition GitError_Error :: "GitError \<Rightarrow> string" where
  "GitError_Error ge =
     [CHR 0x27] @ ''git '' @ Join (Args ge) '' '' @ [CHR 0x27] @ '' failed:'' @ nl
       @ ''stdout:'' @ nl @ Output ge @ nl
       @ ''stderr:'' @ nl @ ErrorOutput ge
       @ nl @ ''command fail error: '' @ err ge"

text \<open>The values of Go's \<open>error\<close> that the modelled operations return: a
  \<open>GitError\<close>, an error made by \<open>fmt.Errorf\<close> from the texts of other errors, and the
  two kinds of error of \<open>Version\<close> (an output of unexpected shape; a number that does
  not parse), whose message text is not rendered.\<close>

datatype error =
    GitErr GitError
  | Errorf string
  | UnexpectedLength "string list" nat nat
  | FailedParsing

fun error_text :: "error \<Rightarrow> string" where
  "error_text (GitErr ge) = GitError_Error ge"
| "error_text (Errorf s) = s"
| "error_text (UnexpectedLength ws got want) = ''unexpected length''"
| "error_text FailedParsing = ''failed parsing''"

text \<open>\<open>runGit\<close>: the user name and the user email, when set, are put in front of the
  arguments as \<open>-c\<close> options (the email last, so it comes first); the command runs in
  \<open>rootDir\<close>.\<close>

definition gitArgv :: "Git \<Rightarrow> string list \<Rightarrow> string list" where
  "gitArgv g args =
     (let a1 = (if userName g \<noteq> [] then [''-c'', ''user.name='' @ userName g] @ args else args)
      in if userEmail g \<noteq> [] then [''-c'', ''user.email='' @ userEmail g] @ a1 else a1)"

definition runGit :: "Git \<Rightarrow> host \<Rightarrow> invocation list \<Rightarrow> string list \<Rightarrow> cmd_result \<times> invocation list" where
  "runGit g h log args =
     (let inv = (rootDir g, gitArgv g args)
      in (h log inv, log @ [inv]))"

text \<open>\<open>run\<close>: \<open>None\<close> is the \<open>nil\<close> error.\<close>

definition run :: "Git \<Rightarrow> host \<Rightarrow> invocation list \<Rightarrow> string list \<Rightarrow> error option \<times> invocation list" where
  "run g h log args =
     (case runGit g h log args of
        (r, log') \<Rightarrow>
          (case RunErr r of
             Some e \<Rightarrow> (Some (GitErr (Error (Stdout r) (Stderr r) e (rootDir g) args)), log')
           | None \<Rightarrow> (None, log')))"

definition trimOutput :: "string \<Rightarrow> string list" where
  "trimOutput o' =
     (let output = TrimSpace o'
      in if length output = 0 then [] else Split output (CHR 0x0A))"

definition runOutput :: "Git \<Rightarrow> host \<Rightarrow> invocation list \<Rightarrow> string list \<Rightarrow> (error + string list) \<times> invocation list" where
  "runOutput g h log args =
     (case runGit g h log args of
        (r, log') \<Rightarrow>
          (case RunErr r of
             Some e \<Rightarrow> (Inl (GitErr (Error (Stdout r) (Stderr r) e (rootDir g) args)), log')
           | None \<Rightarrow> (Inr (trimOutput (Stdout r)), log')))"

subsection \<open>Operations\<close>

text \<open>\<open>BranchExists\<close> returns the pair of Go: the boolean and the error.\<close>

definition BranchExists :: "Git \<Rightarrow> host \<Rightarrow> invocation list \<Rightarrow> string \<Rightarrow> (bool \<times> error option) \<times> invocation list" where
  "BranchExists g h log branch =
     (let args = [''rev-parse'', ''--verify'', ''--quiet'', branch]
      in case runGit g h log args of
           (r, log') \<Rightarrow>
             if RunErr r \<noteq> None \<and> Stderr r \<noteq> []
             then ((False, Some (GitErr (Error (Stdout r) (Stderr r) (the (RunErr r)) (rootDir g) args))), log')
             else ((Stdout r \<noteq> [], None), log'))"

text \<open>The options of \<open>Reset\<close> and \<open>Merge\<close> are values of an interface type that the
  functions inspect with a type switch; the switch has no default, so a value of any
  other type is skipped. The types are declared outside the files at hand: the
  constructors below are the cases of the switches, and \<open>OtherResetOpt\<close> and
  \<open>OtherMergeOpt\<close> stand for any type the switch does not name.\<close>

datatype ResetOpt = ModeOpt string | OtherResetOpt

datatype MergeOpt =
    SquashOpt bool
  | StrategyOpt string
  | ResetOnFailureOpt bool
  | FfOnlyOpt bool
  | OtherMergeOpt

fun Reset_opt :: "string \<Rightarrow> ResetOpt \<Rightarrow> string" where
  "Reset_opt mode (ModeOpt m) = m"
| "Reset_opt mode OtherResetOpt = mode"

definition Reset_args :: "string \<Rightarrow> ResetOpt list \<Rightarrow> string list" where
  "Reset_args target opts =
     (let mode = foldl Reset_opt ''hard'' opts
      in [''reset''] @ [''--'' @ mode, target, ''--''])"

definition Reset :: "Git \<Rightarrow> host \<Rightarrow> invocation list \<Rightarrow> string \<Rightarrow> ResetOpt list \<Rightarrow> error option \<times> invocation list" where
  "Reset g h log target opts = run g h log (Reset_args target opts)"

text \<open>The variables of the loop over the options of \<open>Merge\<close>: the arguments so far,
  \<open>squash\<close>, \<open>strategy\<close> and \<open>resetOnFailure\<close>.\<close>

record merge_vars =
  mv_args :: "string list"
  mv_squash :: bool
  mv_strategy :: string
  mv_resetOnFailure :: bool

fun Merge_opt :: "merge_vars \<Rightarrow> MergeOpt \<Rightarrow> merge_vars" where
  "Merge_opt v (SquashOpt b) = v\<lparr>mv_squash := b\<rparr>"
| "Merge_opt v (StrategyOpt s) = v\<lparr>mv_strategy := s\<rparr>"
| "Merge_opt v (ResetOnFailureOpt b) = v\<lparr>mv_resetOnFailure := b\<rparr>"
| "Merge_opt v (FfOnlyOpt b) = v\<lparr>mv_args := mv_args v @ [''--ff-only'']\<rparr>"
| "Merge_opt v OtherMergeOpt = v"

definition Merge_vars :: "MergeOpt list \<Rightarrow> merge_vars" where
  "Merge_vars opts =
     foldl Merge_opt
       \<lparr>mv_args = [''merge''], mv_squash = False, mv_strategy = [], mv_resetOnFailure = True\<rparr>
       opts"

definition Merge_args :: "string \<Rightarrow> MergeOpt list \<Rightarrow> string list" where
  "Merge_args branch opts =
     (let v = Merge_vars opts;
          a1 = (if mv_squash v then mv_args v @ [''--squash''] else mv_args v @ [''--no-squash'']);
          a2 = (if mv_strategy v \<noteq> [] then a1 @ [''--strategy='' @ mv_strategy v] else a1)
      in a2 @ [branch])"

text \<open>\<open>Merge\<close>. When the command fails, \<open>runOutput\<close> has returned no lines, so the
  lines joined into the last error are none.\<close>

definition Merge :: "Git \<Rightarrow> host \<Rightarrow> invocation list \<Rightarrow> string \<Rightarrow> MergeOpt list \<Rightarrow> error option \<times> invocation list" where
  "Merge g h log branch opts =
     (case runOutput g h log (Merge_args branch opts) of
        (Inr out, log1) \<Rightarrow> (None, log1)
      | (Inl e, log1) \<Rightarrow>
          if mv_resetOnFailure (Merge_vars opts)
          then (case run g h log1 [''reset'', ''--merge''] of
                  (Some e2, log2) \<Rightarrow>
                    (Some (Errorf (error_text e @ nl
                        @ ''Could not git reset while recovering from error: '' @ error_text e2)), log2)
                | (None, log2) \<Rightarrow> (Some (Errorf (error_text e @ nl @ Join [] nl)), log2))
          else (Some (Errorf (error_text e @ nl @ Join [] nl)), log1))"

definition Version :: "Git \<Rightarrow> host \<Rightarrow> invocation list \<Rightarrow> (error + int \<times> int) \<times> invocation list" where
  "Version g h log =
     (case runOutput g h log [''version''] of
        (Inl e, log1) \<Rightarrow> (Inl e, log1)
      | (Inr out, log1) \<Rightarrow>
          if length out \<noteq> 1 then (Inl (UnexpectedLength out (length out) 1), log1)
          else
            (let words = Split (out ! 0) (CHR '' '')
             in if length words < 3 then (Inl (UnexpectedLength words (length words) 3), log1)
                else
                  (let version = Split (words ! 2) (CHR ''.'')
                   in if length version < 3
                      then (Inl (UnexpectedLength version (length version) 3), log1)
                      else (case Atoi (version ! 0) of
                              None \<Rightarrow> (Inl FailedParsing, log1)
                            | Some major \<Rightarrow>
                                (case Atoi (version ! 1) of
                                   None \<Rightarrow> (Inl FailedParsing, log1)
                                 | Some minor \<Rightarrow> (Inr (major, minor), log1))))))"

text \<open>\<open>Pull\<close>. The error of the reset after a failed pull is dropped. For a git older
  than 1.8 a plain \<open>git pull\<close> is run with \<open>exec.Command\<close> directly, in the directory
  of the process (the empty directory of the log) and without the \<open>-c\<close> options; its
  result is dropped.\<close>

definition Pull :: "Git \<Rightarrow> host \<Rightarrow> invocation list \<Rightarrow> string \<Rightarrow> string \<Rightarrow> error option \<times> invocation list" where
  "Pull g h log remote branch =
     (case runOutput g h log [''pull'', remote, branch] of
        (Inl e, log1) \<Rightarrow>
          (case run g h log1 [''reset'', ''--merge''] of
             (e2, log2) \<Rightarrow> (Some (Errorf (error_text e @ nl @ Join [] nl)), log2))
      | (Inr out, log1) \<Rightarrow>
          (case Version g h log1 of
             (Inl e, log2) \<Rightarrow> (Some e, log2)
           | (Inr (major, minor), log2) \<Rightarrow>
               if major < 2 \<and> minor < 8 then (None, log2 @ [([], [''pull''])])
               else (None, log2)))"

subsection \<open>The state of the working tree after a failed merge\<close>

text \<open>
  A merge or pull that fails can leave the checkout in the middle of a merge, and
  \<open>git reset --merge\<close> restores it. A reset that fails restores nothing, so the
  working tree counts as restored after the commands of a log when the last of them
  was \<open>git reset --merge\<close> (the \<open>-c\<close> options of \<open>runGit\<close> apart) and that command
  succeeded.
\<close>

fun withoutConfig :: "string list \<Rightarrow> string list" where
  "withoutConfig (a # b # rest) = (if a = ''-c'' then withoutConfig rest else a # b # rest)"
| "withoutConfig as = as"

definition restoredByReset :: "host \<Rightarrow> invocation list \<Rightarrow> bool" where
  "restoredByReset h lg =
     (lg \<noteq> [] \<and> withoutConfig (snd (last lg)) = [''reset'', ''--merge'']
      \<and> RunErr (h (butlast lg) (last lg)) = None)"

section \<open>The upload command\<close>

subsection \<open>parseEmails\<close>

text \<open>The loop of \<open>parseEmails\<close> over the tokens, with the slice \<open>emails\<close> built so
  far.\<close>

fun parseEmails_loop :: "string list \<Rightarrow> string list \<Rightarrow> string list" where
  "parseEmails_loop emails [] = emails"
| "parseEmails_loop emails (token # tokens) =
     (if token = [] then parseEmails_loop emails tokens
      else
        (let token' = (if \<not> Contains token (CHR ''@'') then token @ ''@google.com'' else token)
         in parseEmails_loop (emails @ [token']) tokens))"

definition parseEmails :: "string \<Rightarrow> string list" where
  "parseEmails value = parseEmails_loop [] (Split value (CHR '',''))"

subsection \<open>Paths\<close>

text \<open>
  \<open>filepath.Clean\<close> and \<open>filepath.Dir\<close> of Go's library, for the separator \<open>/\<close>.
  \<open>Clean\<close> reads the elements of the path from left to right: an empty element and
  \<open>.\<close> are dropped; \<open>..\<close> removes the element before it when there is one that is
  not itself \<open>..\<close>, is kept when the path is not rooted, and is dropped at the root;
  the empty result is \<open>.\<close>. \<open>Dir\<close> cleans the path up to and including its last
  separator.
\<close>

definition cleanStep :: "bool \<Rightarrow> string list \<Rightarrow> string \<Rightarrow> string list" where
  "cleanStep rooted st c =
     (if c = [] \<or> c = ''.'' then st
      else if c = ''..''
      then (if st \<noteq> [] \<and> last st \<noteq> ''..'' then butlast st
            else if \<not> rooted then st @ [''..'']
            else st)
      else st @ [c])"

definition rooted :: "string \<Rightarrow> bool" where
  "rooted path = (path \<noteq> [] \<and> hd path = CHR ''/'')"

definition Clean :: "string \<Rightarrow> string" where
  "Clean path =
     (if path = [] then ''.''
      else
        (let st = foldl (cleanStep (rooted path)) [] (Split path (CHR ''/''));
             out = (if rooted path then ''/'' else []) @ Join st ''/''
         in if out = [] then ''.'' else out))"

definition Dir :: "string \<Rightarrow> string" where
  "Dir path = Clean (rev (dropWhile (\<lambda>c. c \<noteq> CHR ''/'') (rev path)))"

text \<open>The length of a list of path elements when each is written with a separator
  before it.\<close>

definition weight :: "string list \<Rightarrow> nat" where
  "weight st = sum_list (map (\<lambda>c. Suc (length c)) st)"

subsection \<open>The search for the enclosing project\<close>

text \<open>
  The loop of \<open>runUpload\<close> that walks up from the working directory. The two probes
  \<open>project.IsLocalProject\<close> and \<open>project.ProjectAtPath\<close> read the file system; they
  are parameters, each answering with an error text or a value. The loop ends in one
  of four ways: with the project found at a directory, with no project (the directory
  at which the walk stopped is the one the later error message names), or with the
  error of one of the probes. A walk that never ends has the value \<open>None\<close>.
\<close>

datatype 'p search =
    Found string 'p
  | NotFound string
  | IsLocalFailed string string
  | ProjectAtPathFailed string string

partial_function (option) findProject ::
  "(string \<Rightarrow> string + bool) \<Rightarrow> (string \<Rightarrow> string + 'p) \<Rightarrow> string \<Rightarrow> string \<Rightarrow> 'p search option" where
  "findProject IsLocalProject ProjectAtPath root dir =
     (if dir \<noteq> Dir root \<and> dir \<noteq> ''/''
      then (case IsLocalProject dir of
              Inl e \<Rightarrow> Some (IsLocalFailed dir e)
            | Inr isLocal \<Rightarrow>
                if \<not> isLocal then findProject IsLocalProject ProjectAtPath root (Dir dir)
                else (case ProjectAtPath dir of
                        Inl e \<Rightarrow> Some (ProjectAtPathFailed dir e)
                      | Inr p \<Rightarrow> Some (Found dir p)))
      else Some (NotFound dir))"

text \<open>The directory reached after \<open>n\<close> steps upward.\<close>

fun ancestor :: "nat \<Rightarrow> string \<Rightarrow> string" where
  "ancestor 0 dir = dir"
| "ancestor (Suc n) dir = ancestor n (Dir dir)"

text \<open>The condition under which the loop is left without a project: the directory
  is the parent of the workspace root or the root of the file system.\<close>

definition atBoundary :: "string \<Rightarrow> string \<Rightarrow> bool" where
  "atBoundary root dir = (dir = Dir root \<or> dir = ''/'')"

section \<open>The run-hooks command\<close>

text \<open>
  The environment of a command: \<open>jiri.X\<close> with the fields the modelled commands read
  or write (\<open>JiriManifestFile\<close> is the result of the method of that name).
\<close>

record X =
  Attempts :: nat
  IgnoreLockConflicts :: bool
  JiriManifestFile :: string

record runHooksFlags =
  localManifest :: bool
  hookTimeout :: nat
  attempts :: nat
  fetchPackages :: bool

text \<open>The functions of package \<open>project\<close> that \<open>runHooks\<close> calls are parameters; an
  error is a text, and every call is recorded in the order it is made.\<close>

datatype ('h, 'k) call =
    LocalProjects
  | LoadUpdatedManifest
  | LoadManifestFile string
  | RunHooksCall X 'h nat
  | FetchPackages X 'k nat

record ('l, 'h, 'k) project_pkg =
  pLocalProjects :: "X \<Rightarrow> string + 'l"
  pLoadUpdatedManifest :: "X \<Rightarrow> 'l \<Rightarrow> bool \<Rightarrow> string + 'h \<times> 'k list"
  pLoadManifestFile :: "X \<Rightarrow> string \<Rightarrow> 'l \<Rightarrow> bool \<Rightarrow> string + 'h \<times> 'k list"
  pRunHooks :: "X \<Rightarrow> 'h \<Rightarrow> nat \<Rightarrow> string option"
  pFetchPackages :: "X \<Rightarrow> 'k list \<Rightarrow> nat \<Rightarrow> string option"

text \<open>\<open>runHooks\<close> returns the error (\<open>None\<close> for \<open>nil\<close>), the environment as the
  command leaves it, and the calls made.\<close>

definition runHooks ::
  "('l, 'h, 'k) project_pkg \<Rightarrow> runHooksFlags \<Rightarrow> X \<Rightarrow> string list
     \<Rightarrow> string option \<times> X \<times> ('h, 'k list) call list" where
  "runHooks P fl jirix args =
     (case pLocalProjects P jirix of
        Inl e \<Rightarrow> (Some e, jirix, [LocalProjects])
      | Inr localProjects \<Rightarrow>
          if attempts fl < 1
          then (Some ''Number of attempts should be >= 1'', jirix, [LocalProjects])
          else
            (let jirix1 = jirix\<lparr>Attempts := attempts fl\<rparr>;
                 loaded = (if \<not> localManifest fl
                           then pLoadUpdatedManifest P jirix1 localProjects (localManifest fl)
                           else pLoadManifestFile P jirix1 (JiriManifestFile jirix1) localProjects (localManifest fl));
                 c1 = [LocalProjects,
                       if \<not> localManifest fl then LoadUpdatedManifest
                       else LoadManifestFile (JiriManifestFile jirix1)]
             in case loaded of
                  Inl e \<Rightarrow> (Some e, jirix1, c1)
                | Inr (hooks, pkgs) \<Rightarrow>
                    (case pRunHooks P jirix1 hooks (hookTimeout fl) of
                       Some e \<Rightarrow> (Some e, jirix1, c1 @ [RunHooksCall jirix1 hooks (hookTimeout fl)])
                     | None \<Rightarrow>
                         if fetchPackages fl \<and> length pkgs > 0
                         then (pFetchPackages P jirix1 pkgs (hookTimeout fl), jirix1,
                               c1 @ [RunHooksCall jirix1 hooks (hookTimeout fl),
                                     FetchPackages jirix1 pkgs (hookTimeout fl)])
                         else (None, jirix1, c1 @ [RunHooksCall jirix1 hooks (hookTimeout fl)]))))"

subsection \<open>Running the hooks\<close>

text \<open>
  Modelled from the spec: \<open>project.RunHooks\<close>, the function that runs the hooks, is
  not among the files at hand. The spec (4.4) has every hook run as a unit of its
  own; a failure (a time-out is one) is retried up to the configured number of
  attempts before it is final; one hook's failure does not stop the others; the
  result is an aggregate error enumerating every hook that failed in the end, and no
  error when all succeeded. The outcome of attempt \<open>i\<close> of hook \<open>h\<close> is \<open>attempt h i\<close>.
\<close>

record Hook =
  hookName :: string
  hookProject :: string
  hookAction :: string

fun hookSucceeds :: "(nat \<Rightarrow> bool) \<Rightarrow> nat \<Rightarrow> nat \<Rightarrow> bool" where
  "hookSucceeds outcome i 0 = False"
| "hookSucceeds outcome i (Suc n) = (if outcome i then True else hookSucceeds outcome (Suc i) n)"

fun RunHooks_loop :: "(Hook \<Rightarrow> nat \<Rightarrow> bool) \<Rightarrow> nat \<Rightarrow> string list \<Rightarrow> Hook list \<Rightarrow> string list" where
  "RunHooks_loop attempt n failed [] = failed"
| "RunHooks_loop attempt n failed (h # hs) =
     (if hookSucceeds (attempt h) 0 n then RunHooks_loop attempt n failed hs
      else RunHooks_loop attempt n (failed @ [hookName h]) hs)"

text \<open>The aggregate error is the list of the names of the failed hooks.\<close>

definition RunHooks :: "(Hook \<Rightarrow> nat \<Rightarrow> bool) \<Rightarrow> X \<Rightarrow> Hook list \<Rightarrow> string list option" where
  "RunHooks attempt jirix hooks =
     (let failed = RunHooks_loop attempt (Attempts jirix) [] hooks
      in if failed = [] then None else Some failed)"

text \<open>The aggregate error as the text that \<open>runHooks\<close> passes on.\<close>

definition hooksErrorText :: "string list \<Rightarrow> string" where
  "hooksErrorText failed = ''hooks failed: '' @ Join failed '', ''"

section \<open>The resolve command and the lockfile\<close>

record resolveFlags =
  lockFilePath :: string
  localManifestFlag :: bool
  enablePackageLock :: bool
  enableProjectLock :: bool

text \<open>\<open>runResolve\<close>, with \<open>project.GenerateJiriLockFile\<close> as the parameter
  \<open>generate\<close>. The command writes \<open>IgnoreLockConflicts\<close> through the pointer it is
  given, so the environment is returned with the result.\<close>

definition runResolve ::
  "(X \<Rightarrow> string list \<Rightarrow> string \<Rightarrow> bool \<Rightarrow> bool \<Rightarrow> bool \<Rightarrow> 'r) \<Rightarrow> resolveFlags \<Rightarrow> X \<Rightarrow> string list
     \<Rightarrow> 'r \<times> X" where
  "runResolve generate fl jirix args =
     (let manifestFiles =
            (if length args = 0 then [] @ [JiriManifestFile jirix]
             else foldl (\<lambda>fs m. fs @ [m]) [] args);
          jirix1 = jirix\<lparr>IgnoreLockConflicts := True\<rparr>
      in (generate jirix1 manifestFiles (lockFilePath fl) (enableProjectLock fl)
            (enablePackageLock fl) (localManifestFlag fl),
          jirix1))"

subsection \<open>Generating the lockfile\<close>

text \<open>
  Modelled from the spec: \<open>project.GenerateJiriLockFile\<close>, the lockfile generator, is
  not among the files at hand. The spec (4.3) has it resolve every input manifest on
  its own and then unite the pins; a key that comes from more than one input with
  different revisions or instance ids is a \<open>LockConflictError\<close> that aborts the
  generation, unless conflict detection is suppressed, and then the later input's pin
  wins (8); the output is the mapping sorted by key, serialised.

  A pin is a key (of a project or a package) with its revision or instance id. The
  resolution of one manifest is the parameter \<open>resolve\<close>: an error text or the pins
  of the manifest. The mapping that unites the pins has no order of its own: the
  parameter \<open>enum\<close> is the order in which its entries happen to be enumerated before
  they are sorted.
\<close>

type_synonym pins = "(string \<times> string) list"

datatype lock_error =
    LockConflictError string string string
  | ResolveError string string

fun addPin :: "bool \<Rightarrow> pins \<Rightarrow> string \<times> string \<Rightarrow> lock_error + pins" where
  "addPin ignore acc (k, v) =
     (case map_of acc k of
        None \<Rightarrow> Inr (acc @ [(k, v)])
      | Some v' \<Rightarrow>
          if v' = v then Inr acc
          else if ignore then Inr (AList.update k v acc)
          else Inl (LockConflictError k v' v))"

fun addPins :: "bool \<Rightarrow> pins \<Rightarrow> pins \<Rightarrow> lock_error + pins" where
  "addPins ignore acc [] = Inr acc"
| "addPins ignore acc (p # ps) =
     (case addPin ignore acc p of
        Inl e \<Rightarrow> Inl e
      | Inr acc' \<Rightarrow> addPins ignore acc' ps)"

fun unionPins :: "bool \<Rightarrow> (string \<Rightarrow> string + pins) \<Rightarrow> pins \<Rightarrow> string list \<Rightarrow> lock_error + pins" where
  "unionPins ignore resolve acc [] = Inr acc"
| "unionPins ignore resolve acc (m # ms) =
     (case resolve m of
        Inl e \<Rightarrow> Inl (ResolveError m e)
      | Inr ps \<Rightarrow>
          (case addPins ignore acc ps of
             Inl e \<Rightarrow> Inl e
           | Inr acc' \<Rightarrow> unionPins ignore resolve acc' ms))"

text \<open>The lockfile as a mapping sorted by key, and its serialisation: one line for
  every entry.\<close>

definition LockFile ::
  "(pins \<Rightarrow> pins) \<Rightarrow> (string \<Rightarrow> string + pins) \<Rightarrow> bool \<Rightarrow> string list \<Rightarrow> lock_error + pins" where
  "LockFile enum resolve ignore manifestPaths =
     (case unionPins ignore resolve [] manifestPaths of
        Inl e \<Rightarrow> Inl e
      | Inr u \<Rightarrow> Inr (sort_key fst (enum u)))"

definition serialise :: "pins \<Rightarrow> string" where
  "serialise ps = concat (map (\<lambda>(k, v). k @ '': '' @ v @ nl) ps)"

definition Generate ::
  "(pins \<Rightarrow> pins) \<Rightarrow> (string \<Rightarrow> string + pins) \<Rightarrow> bool \<Rightarrow> string list \<Rightarrow> lock_error + string" where
  "Generate enum resolve ignore manifestPaths =
     (case LockFile enum resolve ignore manifestPaths of
        Inl e \<Rightarrow> Inl e
      | Inr l \<Rightarrow> Inr (serialise l))"

text \<open>Modelled from the spec: the same generator under the name and with the
  arguments of the call in \<open>runResolve\<close>. Conflict detection is suppressed by the
  field \<open>IgnoreLockConflicts\<close> of the environment; the three flags select what the
  resolution of a manifest reads; the path of the output plays no part in what is
  generated.\<close>

definition GenerateJiriLockFile ::
  "(pins \<Rightarrow> pins) \<Rightarrow> (bool \<Rightarrow> bool \<Rightarrow> bool \<Rightarrow> string \<Rightarrow> string + pins)
     \<Rightarrow> X \<Rightarrow> string list \<Rightarrow> string \<Rightarrow> bool \<Rightarrow> bool \<Rightarrow> bool \<Rightarrow> lock_error + string" where
  "GenerateJiriLockFile enum resolve jirix manifestFiles path projectLock packageLock localManifestFiles =
     Generate enum (resolve projectLock packageLock localManifestFiles)
       (IgnoreLockConflicts jirix) manifestFiles"

text \<open>Two inputs pin the same key to different values.\<close>

definition pinsConflict :: "pins \<Rightarrow> pins \<Rightarrow> bool" where
  "pinsConflict ps qs =
     list_ex (\<lambda>(k, v). case map_of ps k of None \<Rightarrow> False | Some v' \<Rightarrow> v' \<noteq> v) qs"

section \<open>Example inputs\<close>

text \<open>A checkout with a user name set, a host on which every command fails with
  output on both streams, and a host on which every command fails without output.\<close>

definition someGit :: Git where
  "someGit = \<lparr>rootDir = ''/w/p'', userName = ''u'', userEmail = []\<rparr>"

definition failingHost :: host where
  "failingHost lg iv = \<lparr>Stdout = ''out'', Stderr = ''fatal'', RunErr = Some ''exit status 128''\<rparr>"

definition silentHost :: host where
  "silentHost lg iv = \<lparr>Stdout = [], Stderr = [], RunErr = Some ''exit status 1''\<rparr>"

text \<open>Two hooks, of which \<open>a\<close> succeeds at its second attempt and \<open>b\<close> never
  does; an environment; the functions of package \<open>project\<close> with the hooks run as
  modelled above; the flags of a run with two attempts.\<close>

definition hookA :: Hook where
  "hookA = \<lparr>hookName = ''a'', hookProject = ''p'', hookAction = ''run-a''\<rparr>"

definition hookB :: Hook where
  "hookB = \<lparr>hookName = ''b'', hookProject = ''p'', hookAction = ''run-b''\<rparr>"

definition flakyAttempt :: "Hook \<Rightarrow> nat \<Rightarrow> bool" where
  "flakyAttempt hk i = (hookName hk = ''a'' \<and> i = 1)"

definition someX :: X where
  "someX = \<lparr>Attempts = 1, IgnoreLockConflicts = False, JiriManifestFile = ''/w/.jiri_manifest''\<rparr>"

definition someProjectPkg :: "(unit, Hook list, string) project_pkg" where
  "someProjectPkg =
     \<lparr>pLocalProjects = (\<lambda>x. Inr ()),
      pLoadUpdatedManifest = (\<lambda>x l b. Inr ([hookA, hookB], [''pkg''])),
      pLoadManifestFile = (\<lambda>x f l b. Inr ([hookA, hookB], [''pkg''])),
      pRunHooks = (\<lambda>x hs t. map_option hooksErrorText (RunHooks flakyAttempt x hs)),
      pFetchPackages = (\<lambda>x ks t. None)\<rparr>"

definition someRunHooksFlags :: runHooksFlags where
  "someRunHooksFlags = \<lparr>localManifest = False, hookTimeout = 5, attempts = 2, fetchPackages = True\<rparr>"

text \<open>A host on which \<open>git reset --merge\<close> succeeds and every other command
  fails.\<close>

definition conflictHost :: host where
  "conflictHost lg iv =
     (if withoutConfig (snd iv) = [''reset'', ''--merge'']
      then \<lparr>Stdout = [], Stderr = [], RunErr = None\<rparr>
      else \<lparr>Stdout = ''CONFLICT'', Stderr = [], RunErr = Some ''exit status 1''\<rparr>)"

text \<open>Two manifests that pin \<open>zlib\<close> to different revisions, and the flags of
  the resolve command.\<close>

definition someResolve :: "string \<Rightarrow> string + pins" where
  "someResolve m =
     (if m = ''a.manifest'' then Inr [(''zlib'', ''r1''), (''absl'', ''r7'')]
      else if m = ''b.manifest'' then Inr [(''zlib'', ''r2''), (''cipd/go'', ''id9'')]
      else Inl ''no such manifest'')"

definition someResolve3 :: "bool \<Rightarrow> bool \<Rightarrow> bool \<Rightarrow> string \<Rightarrow> string + pins" where
  "someResolve3 projectLock packageLock localManifestFiles = someResolve"

definition someResolveFlags :: resolveFlags where
  "someResolveFlags = \<lparr>lockFilePath = ''jiri.lock'', localManifestFlag = False,
     enablePackageLock = True, enableProjectLock = False\<rparr>"

text \<open>A workspace in which \<open>/w/p\<close> is the only local project, and one without
  projects; a load of the project that succeeds, and one that fails.\<close>

definition oneProject :: "string \<Rightarrow> string + bool" where
  "oneProject d = Inr (d = ''/w/p'')"

definition noProject :: "string \<Rightarrow> string + bool" where
  "noProject d = Inr False"

definition loadsProject :: "string \<Rightarrow> string + string" where
  "loadsProject d = Inr (''project at '' @ d)"

definition failingLoad :: "string \<Rightarrow> string + string" where
  "failingLoad d = Inl ''cannot read the project metadata''"


section \<open>Properties of the git wrapper\<close>

lemma runGit_eq:
  "runGit g h log args = (h log (rootDir g, gitArgv g args), log @ [(rootDir g, gitArgv g args)])"
  by (simp add: runGit_def Let_def)

text \<open>
  Claim C3. For every invocation through \<open>run\<close> and \<open>runOutput\<close>: when the command
  fails, the result is a \<open>GitError\<close> that carries the arguments given to the wrapper,
  the captured standard output and the captured standard error (and the root
  directory and the error of the command); when the command succeeds, \<open>run\<close> returns
  no error and \<open>runOutput\<close> returns the lines of the output.
\<close>

theorem run_failure_is_structured:
  "(case RunErr (h log (rootDir g, gitArgv g args)) of
      Some e \<Rightarrow>
        fst (run g h log args) =
          Some (GitErr \<lparr>Root = rootDir g, Args = args,
                        Output = Stdout (h log (rootDir g, gitArgv g args)),
                        ErrorOutput = Stderr (h log (rootDir g, gitArgv g args)), err = e\<rparr>)
        \<and> fst (runOutput g h log args) =
          Inl (GitErr \<lparr>Root = rootDir g, Args = args,
                        Output = Stdout (h log (rootDir g, gitArgv g args)),
                        ErrorOutput = Stderr (h log (rootDir g, gitArgv g args)), err = e\<rparr>)
    | None \<Rightarrow>
        fst (run g h log args) = None
        \<and> fst (runOutput g h log args) = Inr (trimOutput (Stdout (h log (rootDir g, gitArgv g args)))))"
  by (simp add: run_def runOutput_def runGit_eq Error_def split: option.split)

theorem run_failure_is_structured_witness:
  "fst (run someGit failingHost [] [''fetch'', ''origin'']) =
     Some (GitErr \<lparr>Root = ''/w/p'', Args = [''fetch'', ''origin''], Output = ''out'',
                   ErrorOutput = ''fatal'', err = ''exit status 128''\<rparr>)"
  using run_failure_is_structured [where h = failingHost and log = "[]" and g = someGit
      and args = "[''fetch'', ''origin'']"]
  by (simp add: failingHost_def someGit_def)

lemma foldl_Reset_opt_no_mode:
  "\<forall>m. ModeOpt m \<notin> set opts \<Longrightarrow> foldl Reset_opt mode opts = mode"
proof (induction opts arbitrary: mode)
  case Nil
  then show ?case by simp
next
  case (Cons a opts)
  then show ?case by (cases a) auto
qed

text \<open>
  Claim C6. Without a mode option, \<open>Reset\<close> runs \<open>git reset --hard <target> --\<close>;
  a mode option replaces \<open>hard\<close> by its mode (the last one given counts); in every
  case exactly one command is run, in the root directory of the checkout, and its
  error is the result.
\<close>

theorem Reset_hard_by_default:
  "((\<forall>m. ModeOpt m \<notin> set opts) \<longrightarrow>
      Reset g h log target opts = run g h log [''reset'', ''--hard'', target, ''--''])
   \<and> ((\<forall>m'. ModeOpt m' \<notin> set opts') \<longrightarrow>
      Reset g h log target (opts @ ModeOpt m # opts') = run g h log [''reset'', ''--'' @ m, target, ''--''])
   \<and> snd (Reset g h log target opts) = log @ [(rootDir g, gitArgv g (Reset_args target opts))]"
  by (simp add: Reset_def Reset_args_def foldl_Reset_opt_no_mode run_def runGit_eq split: option.split)

theorem Reset_hard_by_default_witness:
  "Reset someGit failingHost [] ''abc'' [] = run someGit failingHost [] [''reset'', ''--hard'', ''abc'', ''--'']
   \<and> Reset someGit failingHost [] ''abc'' [OtherResetOpt, ModeOpt ''soft'', OtherResetOpt]
       = run someGit failingHost [] [''reset'', ''--soft'', ''abc'', ''--'']"
  using Reset_hard_by_default [where opts = "[]" and g = someGit and h = failingHost and log = "[]"
      and target = "''abc''" and opts' = "[OtherResetOpt]" and m = "''soft''"]
    Reset_hard_by_default [where opts = "[OtherResetOpt]" and g = someGit and h = failingHost and log = "[]"
      and target = "''abc''" and opts' = "[OtherResetOpt]" and m = "''soft''"]
  by simp

lemma withoutConfig_reset:
  "withoutConfig (gitArgv g [''reset'', ''--merge'']) = [''reset'', ''--merge'']"
  by (simp add: gitArgv_def Let_def)

lemma runOutput_fails_eq:
  "RunErr (h log (rootDir g, gitArgv g args)) = Some e \<Longrightarrow>
   runOutput g h log args =
     (Inl (GitErr (Error (Stdout (h log (rootDir g, gitArgv g args)))
                         (Stderr (h log (rootDir g, gitArgv g args))) e (rootDir g) args)),
      log @ [(rootDir g, gitArgv g args)])"
  by (simp add: runOutput_def runGit_eq)

lemma run_eq:
  "run g h log args =
     (case RunErr (h log (rootDir g, gitArgv g args)) of
        Some e \<Rightarrow> Some (GitErr (Error (Stdout (h log (rootDir g, gitArgv g args)))
                         (Stderr (h log (rootDir g, gitArgv g args))) e (rootDir g) args))
      | None \<Rightarrow> None,
      log @ [(rootDir g, gitArgv g args)])"
  by (simp add: run_def runGit_eq split: option.split)

text \<open>
  Claim C9, as amended. When the merge command fails and \<open>resetOnFailure\<close> is true
  (as it is without options), \<open>Merge\<close> runs \<open>git reset --merge\<close> as its next and
  last command and returns an error; when the pull command fails, \<open>Pull\<close> does the
  same. The working tree is restored exactly when that reset succeeds. When the reset
  fails as well, the error of \<open>Merge\<close> says so, and \<open>Pull\<close> returns the error of the
  pull alone, whatever the reset did.
\<close>

theorem Merge_Pull_reset_attempted:
  "(mv_resetOnFailure (Merge_vars opts) \<and>
      RunErr (h log (rootDir g, gitArgv g (Merge_args branch opts))) = Some e \<longrightarrow>
      snd (Merge g h log branch opts) =
          log @ [(rootDir g, gitArgv g (Merge_args branch opts)),
                 (rootDir g, gitArgv g [''reset'', ''--merge''])]
      \<and> (restoredByReset h (snd (Merge g h log branch opts)) \<longleftrightarrow>
           RunErr (h (log @ [(rootDir g, gitArgv g (Merge_args branch opts))])
                     (rootDir g, gitArgv g [''reset'', ''--merge''])) = None)
      \<and> (\<exists>t. fst (Merge g h log branch opts) = Some (Errorf t))
      \<and> (\<forall>e2. RunErr (h (log @ [(rootDir g, gitArgv g (Merge_args branch opts))])
                     (rootDir g, gitArgv g [''reset'', ''--merge''])) = Some e2 \<longrightarrow>
            (\<exists>t u. fst (Merge g h log branch opts) =
               Some (Errorf (t @ ''Could not git reset while recovering from error: '' @ u)))))
   \<and> (RunErr (h log (rootDir g, gitArgv g [''pull'', remote, branch])) = Some e \<longrightarrow>
      snd (Pull g h log remote branch) =
          log @ [(rootDir g, gitArgv g [''pull'', remote, branch]),
                 (rootDir g, gitArgv g [''reset'', ''--merge''])]
      \<and> (restoredByReset h (snd (Pull g h log remote branch)) \<longleftrightarrow>
           RunErr (h (log @ [(rootDir g, gitArgv g [''pull'', remote, branch])])
                     (rootDir g, gitArgv g [''reset'', ''--merge''])) = None)
      \<and> fst (Pull g h log remote branch) =
           Some (Errorf (GitError_Error
                   (Error (Stdout (h log (rootDir g, gitArgv g [''pull'', remote, branch])))
                          (Stderr (h log (rootDir g, gitArgv g [''pull'', remote, branch])))
                          e (rootDir g) [''pull'', remote, branch]) @ nl)))
   \<and> mv_resetOnFailure (Merge_vars [])"
proof (intro conjI impI)
  assume a: "mv_resetOnFailure (Merge_vars opts) \<and>
      RunErr (h log (rootDir g, gitArgv g (Merge_args branch opts))) = Some e"
  have m: "Merge g h log branch opts =
     (case RunErr (h (log @ [(rootDir g, gitArgv g (Merge_args branch opts))])
                     (rootDir g, gitArgv g [''reset'', ''--merge''])) of
        Some e2 \<Rightarrow> Some (Errorf (GitError_Error (Error (Stdout (h log (rootDir g, gitArgv g (Merge_args branch opts))))
                         (Stderr (h log (rootDir g, gitArgv g (Merge_args branch opts)))) e (rootDir g) (Merge_args branch opts)) @ nl
                  @ ''Could not git reset while recovering from error: ''
                  @ GitError_Error (Error
                      (Stdout (h (log @ [(rootDir g, gitArgv g (Merge_args branch opts))])
                                 (rootDir g, gitArgv g [''reset'', ''--merge''])))
                      (Stderr (h (log @ [(rootDir g, gitArgv g (Merge_args branch opts))])
                                 (rootDir g, gitArgv g [''reset'', ''--merge''])))
                      e2 (rootDir g) [''reset'', ''--merge''])))
      | None \<Rightarrow> Some (Errorf (GitError_Error (Error (Stdout (h log (rootDir g, gitArgv g (Merge_args branch opts))))
                         (Stderr (h log (rootDir g, gitArgv g (Merge_args branch opts)))) e (rootDir g) (Merge_args branch opts)) @ nl)),
      log @ [(rootDir g, gitArgv g (Merge_args branch opts)),
             (rootDir g, gitArgv g [''reset'', ''--merge''])])"
    using a by (simp add: Merge_def runOutput_fails_eq run_eq split: option.split)
  show "snd (Merge g h log branch opts) =
          log @ [(rootDir g, gitArgv g (Merge_args branch opts)),
                 (rootDir g, gitArgv g [''reset'', ''--merge''])]"
    by (simp add: m)
  show "restoredByReset h (snd (Merge g h log branch opts)) \<longleftrightarrow>
           RunErr (h (log @ [(rootDir g, gitArgv g (Merge_args branch opts))])
                     (rootDir g, gitArgv g [''reset'', ''--merge''])) = None"
    by (simp add: m restoredByReset_def withoutConfig_reset butlast_append)
  show "\<exists>t. fst (Merge g h log branch opts) = Some (Errorf t)"
    by (simp add: m split: option.split)
  show "\<forall>e2. RunErr (h (log @ [(rootDir g, gitArgv g (Merge_args branch opts))])
                     (rootDir g, gitArgv g [''reset'', ''--merge''])) = Some e2 \<longrightarrow>
            (\<exists>t u. fst (Merge g h log branch opts) =
               Some (Errorf (t @ ''Could not git reset while recovering from error: '' @ u)))"
  proof (intro allI impI)
    fix e2
    assume "RunErr (h (log @ [(rootDir g, gitArgv g (Merge_args branch opts))])
                     (rootDir g, gitArgv g [''reset'', ''--merge''])) = Some e2"
    then have "fst (Merge g h log branch opts) =
       Some (Errorf ((GitError_Error (Error (Stdout (h log (rootDir g, gitArgv g (Merge_args branch opts))))
                         (Stderr (h log (rootDir g, gitArgv g (Merge_args branch opts)))) e (rootDir g) (Merge_args branch opts)) @ nl)
                  @ ''Could not git reset while recovering from error: ''
                  @ GitError_Error (Error
                      (Stdout (h (log @ [(rootDir g, gitArgv g (Merge_args branch opts))])
                                 (rootDir g, gitArgv g [''reset'', ''--merge''])))
                      (Stderr (h (log @ [(rootDir g, gitArgv g (Merge_args branch opts))])
                                 (rootDir g, gitArgv g [''reset'', ''--merge''])))
                      e2 (rootDir g) [''reset'', ''--merge''])))"
      by (simp add: m)
    then show "\<exists>t u. fst (Merge g h log branch opts) =
               Some (Errorf (t @ ''Could not git reset while recovering from error: '' @ u))"
      by blast
  qed
next
  assume a: "RunErr (h log (rootDir g, gitArgv g [''pull'', remote, branch])) = Some e"
  have p: "Pull g h log remote branch =
     (Some (Errorf (GitError_Error
                   (Error (Stdout (h log (rootDir g, gitArgv g [''pull'', remote, branch])))
                          (Stderr (h log (rootDir g, gitArgv g [''pull'', remote, branch])))
                          e (rootDir g) [''pull'', remote, branch]) @ nl)),
      log @ [(rootDir g, gitArgv g [''pull'', remote, branch]),
             (rootDir g, gitArgv g [''reset'', ''--merge''])])"
    using a by (simp add: Pull_def runOutput_fails_eq run_eq)
  show "snd (Pull g h log remote branch) =
          log @ [(rootDir g, gitArgv g [''pull'', remote, branch]),
                 (rootDir g, gitArgv g [''reset'', ''--merge''])]"
    by (simp add: p)
  show "restoredByReset h (snd (Pull g h log remote branch)) \<longleftrightarrow>
           RunErr (h (log @ [(rootDir g, gitArgv g [''pull'', remote, branch])])
                     (rootDir g, gitArgv g [''reset'', ''--merge''])) = None"
    by (simp add: p restoredByReset_def withoutConfig_reset butlast_append)
  show "fst (Pull g h log remote branch) =
           Some (Errorf (GitError_Error
                   (Error (Stdout (h log (rootDir g, gitArgv g [''pull'', remote, branch])))
                          (Stderr (h log (rootDir g, gitArgv g [''pull'', remote, branch])))
                          e (rootDir g) [''pull'', remote, branch]) @ nl))"
    by (simp add: p)
next
  show "mv_resetOnFailure (Merge_vars [])"
    by (simp add: Merge_vars_def)
qed

theorem Merge_Pull_reset_attempted_witness:
  "snd (Merge someGit conflictHost [] ''topic'' []) =
     [(''/w/p'', [''-c'', ''user.name=u'', ''merge'', ''--no-squash'', ''topic'']),
      (''/w/p'', [''-c'', ''user.name=u'', ''reset'', ''--merge''])]
   \<and> restoredByReset conflictHost (snd (Merge someGit conflictHost [] ''topic'' []))
   \<and> restoredByReset conflictHost (snd (Pull someGit conflictHost [] ''origin'' ''main''))
   \<and> \<not> restoredByReset failingHost (snd (Merge someGit failingHost [] ''topic'' []))"
proof -
  have rof: "mv_resetOnFailure (Merge_vars [])"
    by (simp add: Merge_vars_def)
  have m1: "RunErr (conflictHost [] (rootDir someGit, gitArgv someGit (Merge_args ''topic'' [])))
              = Some ''exit status 1''"
    by (simp add: conflictHost_def someGit_def gitArgv_def Merge_args_def Merge_vars_def Let_def)
  have p1: "RunErr (conflictHost [] (rootDir someGit, gitArgv someGit [''pull'', ''origin'', ''main'']))
              = Some ''exit status 1''"
    by (simp add: conflictHost_def someGit_def gitArgv_def Let_def)
  have m2: "RunErr (failingHost [] (rootDir someGit, gitArgv someGit (Merge_args ''topic'' [])))
              = Some ''exit status 128''"
    by (simp add: failingHost_def)
  have ok: "\<And>lg. RunErr (conflictHost lg (rootDir someGit, gitArgv someGit [''reset'', ''--merge''])) = None"
    by (simp add: conflictHost_def someGit_def gitArgv_def Let_def)
  have ko: "\<And>lg. RunErr (failingHost lg (rootDir someGit, gitArgv someGit [''reset'', ''--merge''])) \<noteq> None"
    by (simp add: failingHost_def)
  have a: "snd (Merge someGit conflictHost [] ''topic'' []) =
      [] @ [(rootDir someGit, gitArgv someGit (Merge_args ''topic'' [])),
            (rootDir someGit, gitArgv someGit [''reset'', ''--merge''])]"
    and b: "restoredByReset conflictHost (snd (Merge someGit conflictHost [] ''topic'' []))"
    using Merge_Pull_reset_attempted [where opts = "[]" and h = conflictHost and log = "[]"
        and g = someGit and branch = "''topic''" and remote = "''origin''" and e = "''exit status 1''"] rof m1 ok
    by auto
  have c: "restoredByReset conflictHost (snd (Pull someGit conflictHost [] ''origin'' ''main''))"
    using Merge_Pull_reset_attempted [where opts = "[]" and h = conflictHost and log = "[]"
        and g = someGit and branch = "''main''" and remote = "''origin''" and e = "''exit status 1''"] p1 ok
    by auto
  have d: "\<not> restoredByReset failingHost (snd (Merge someGit failingHost [] ''topic'' []))"
    using Merge_Pull_reset_attempted [where opts = "[]" and h = failingHost and log = "[]"
        and g = someGit and branch = "''topic''" and remote = "''origin''" and e = "''exit status 128''"] rof m2 ko
    by auto
  have a': "snd (Merge someGit conflictHost [] ''topic'' []) =
     [(''/w/p'', [''-c'', ''user.name=u'', ''merge'', ''--no-squash'', ''topic'']),
      (''/w/p'', [''-c'', ''user.name=u'', ''reset'', ''--merge''])]"
    using a by (simp add: someGit_def gitArgv_def Merge_args_def Merge_vars_def Let_def)
  show ?thesis
    using a' b c d by blast
qed

text \<open>
  Claim C9 as it is stated fails where the reset fails too: on a host on which every
  command fails, \<open>Pull\<close> and \<open>Merge\<close> return after a failed pull or merge without the
  working tree restored.
\<close>

theorem Merge_Pull_restore_counterexample:
  "\<not> (RunErr (failingHost [] (rootDir someGit, gitArgv someGit [''pull'', ''origin'', ''main''])) \<noteq> None \<longrightarrow>
        restoredByReset failingHost (snd (Pull someGit failingHost [] ''origin'' ''main'')))
   \<and> \<not> (RunErr (failingHost [] (rootDir someGit, gitArgv someGit (Merge_args ''topic'' []))) \<noteq> None \<longrightarrow>
        restoredByReset failingHost (snd (Merge someGit failingHost [] ''topic'' [])))"
  by (simp add: failingHost_def someGit_def gitArgv_def Merge_args_def Merge_vars_def
      Merge_def Pull_def runOutput_def run_def runGit_def Let_def restoredByReset_def)

text \<open>
  Claim C10. \<open>BranchExists\<close> returns an error only when the command failed and wrote
  to its standard error; when it returns no error, its boolean is true exactly when
  the standard output is not empty; a command that fails with an empty standard error
  gives no error, and with no output at all the result is \<open>(false, nil)\<close>.
\<close>

theorem BranchExists_error_only_with_stderr:
  "(snd (fst (BranchExists g h log branch)) \<noteq> None \<longrightarrow>
      RunErr (h log (rootDir g, gitArgv g [''rev-parse'', ''--verify'', ''--quiet'', branch])) \<noteq> None
      \<and> Stderr (h log (rootDir g, gitArgv g [''rev-parse'', ''--verify'', ''--quiet'', branch])) \<noteq> [])
   \<and> (snd (fst (BranchExists g h log branch)) = None \<longrightarrow>
      fst (fst (BranchExists g h log branch)) =
        (Stdout (h log (rootDir g, gitArgv g [''rev-parse'', ''--verify'', ''--quiet'', branch])) \<noteq> []))
   \<and> (RunErr (h log (rootDir g, gitArgv g [''rev-parse'', ''--verify'', ''--quiet'', branch])) \<noteq> None
      \<and> Stderr (h log (rootDir g, gitArgv g [''rev-parse'', ''--verify'', ''--quiet'', branch])) = [] \<longrightarrow>
      snd (fst (BranchExists g h log branch)) = None
      \<and> (Stdout (h log (rootDir g, gitArgv g [''rev-parse'', ''--verify'', ''--quiet'', branch])) = [] \<longrightarrow>
           fst (BranchExists g h log branch) = (False, None)))"
  by (simp add: BranchExists_def runGit_eq Let_def)

theorem BranchExists_error_only_with_stderr_witness:
  "fst (BranchExists someGit silentHost [] ''nobranch'') = (False, None)
   \<and> snd (fst (BranchExists someGit failingHost [] ''nobranch'')) \<noteq> None"
  using BranchExists_error_only_with_stderr [where g = someGit and h = silentHost and log = "[]"
      and branch = "''nobranch''"]
    BranchExists_error_only_with_stderr [where g = someGit and h = failingHost and log = "[]"
      and branch = "''nobranch''"]
  by (simp add: silentHost_def failingHost_def BranchExists_def runGit_eq Let_def)

section \<open>Properties of the upload command\<close>

lemma Split_nonempty: "Split s c \<noteq> []"
  by (induction s) (auto split: list.split)

lemma Join_Cons: "ws \<noteq> [] \<Longrightarrow> Join (w # ws) sep = w @ sep @ Join ws sep"
  by (cases ws) auto

lemma Join_Split: "Join (Split s c) [c] = s"
proof (induction s)
  case Nil
  then show ?case by simp
next
  case (Cons a s)
  show ?case
  proof (cases "a = c")
    case True
    then show ?thesis using Cons Split_nonempty [of s c] by (simp add: Join_Cons)
  next
    case False
    obtain w ws where sp: "Split s c = w # ws"
      using Split_nonempty [of s c] by (cases "Split s c") auto
    show ?thesis
      using False Cons sp by (cases ws) auto
  qed
qed

lemma Split_no_sep: "t \<in> set (Split s c) \<Longrightarrow> c \<notin> set t"
proof (induction s arbitrary: t)
  case Nil
  then show ?case by simp
next
  case (Cons a s)
  then show ?case
    by (cases "Split s c") (auto split: if_splits)
qed

lemma parseEmails_loop_eq:
  "parseEmails_loop emails tokens =
     emails @ map (\<lambda>t. if CHR ''@'' \<in> set t then t else t @ ''@google.com'')
                  (filter (\<lambda>t. t \<noteq> []) tokens)"
  by (induction tokens arbitrary: emails) (auto simp: Contains_def Let_def)

text \<open>
  Claim C8. For every input, \<open>parseEmails\<close> returns the tokens between the commas,
  in order, without the empty ones, each unchanged when it contains \<open>@\<close> and with
  \<open>@google.com\<close> appended when it does not. The tokens are those of the input:
  joined by commas they give the input back, and none contains a comma. The empty
  input gives the empty list.
\<close>

theorem parseEmails_spec:
  "parseEmails v =
     map (\<lambda>t. if CHR ''@'' \<in> set t then t else t @ ''@google.com'')
         (filter (\<lambda>t. t \<noteq> []) (Split v (CHR '','')))
   \<and> Join (Split v (CHR '','')) '','' = v
   \<and> (\<forall>t \<in> set (Split v (CHR '','')). CHR '','' \<notin> set t)
   \<and> parseEmails [] = []"
  using Join_Split [of v "CHR '',''"] Split_no_sep [of _ v "CHR '',''"]
  by (auto simp: parseEmails_def parseEmails_loop_eq)

theorem parseEmails_spec_witness:
  "parseEmails ''ann,,bob@x.org,'' = [''ann@google.com'', ''bob@x.org'']
   \<and> Split ''ann,,bob@x.org,'' (CHR '','') = [''ann'', [], ''bob@x.org'', []]"
  using parseEmails_spec [of "''ann,,bob@x.org,''"]
  by (simp add: parseEmails_def Contains_def)

section \<open>Properties of the run-hooks command\<close>

lemma hookSucceeds_iff: "hookSucceeds f i n = (\<exists>j. i \<le> j \<and> j < i + n \<and> f j)"
proof (induction n arbitrary: i)
  case 0
  then show ?case by simp
next
  case (Suc n)
  show ?case
  proof (cases "f i")
    case True
    then show ?thesis by auto
  next
    case False
    have "(\<exists>j. Suc i \<le> j \<and> j < Suc i + n \<and> f j) = (\<exists>j. i \<le> j \<and> j < i + Suc n \<and> f j)"
      using False
      by (metis Suc_leD Suc_le_eq add_Suc add_Suc_right le_neq_implies_less nat_less_le)
    then show ?thesis using False Suc [of "Suc i"] by simp
  qed
qed

lemma RunHooks_loop_eq:
  "RunHooks_loop attempt n failed hooks =
     failed @ map hookName (filter (\<lambda>h. \<not> (\<exists>i<n. attempt h i)) hooks)"
  by (induction hooks arbitrary: failed) (auto simp: hookSucceeds_iff)

text \<open>
  Claim C5. Running all hooks returns no error exactly when every hook succeeds at
  one of its attempts; otherwise it returns the aggregate error that lists, in order,
  every hook none of whose attempts succeeded. In the run-hooks command, when the
  hooks are reached and running them returns an error, the command returns that
  error and does not fetch packages.
\<close>

theorem RunHooks_aggregate_error:
  "(RunHooks attempt jirix hooks = None \<longleftrightarrow> (\<forall>hk \<in> set hooks. \<exists>i < Attempts jirix. attempt hk i))
   \<and> (RunHooks attempt jirix hooks \<noteq> None \<longrightarrow>
        RunHooks attempt jirix hooks =
          Some (map hookName (filter (\<lambda>hk. \<forall>i < Attempts jirix. \<not> attempt hk i) hooks)))
   \<and> (pLocalProjects P jirix = Inr lp \<and> 1 \<le> attempts fl
        \<and> (if \<not> localManifest fl
            then pLoadUpdatedManifest P (jirix\<lparr>Attempts := attempts fl\<rparr>) lp (localManifest fl)
            else pLoadManifestFile P (jirix\<lparr>Attempts := attempts fl\<rparr>) (JiriManifestFile jirix) lp
                   (localManifest fl)) = Inr (hs, pkgs)
        \<and> pRunHooks P (jirix\<lparr>Attempts := attempts fl\<rparr>) hs (hookTimeout fl) = Some e \<longrightarrow>
        fst (runHooks P fl jirix args) = Some e
        \<and> (\<forall>x ks t. FetchPackages x ks t \<notin> set (snd (snd (runHooks P fl jirix args)))))"
proof (intro conjI)
  show "RunHooks attempt jirix hooks = None \<longleftrightarrow> (\<forall>hk \<in> set hooks. \<exists>i < Attempts jirix. attempt hk i)"
    by (auto simp: RunHooks_def RunHooks_loop_eq Let_def filter_empty_conv)
  show "RunHooks attempt jirix hooks \<noteq> None \<longrightarrow>
        RunHooks attempt jirix hooks =
          Some (map hookName (filter (\<lambda>hk. \<forall>i < Attempts jirix. \<not> attempt hk i) hooks))"
    by (simp add: RunHooks_def RunHooks_loop_eq Let_def)
  show "pLocalProjects P jirix = Inr lp \<and> 1 \<le> attempts fl
        \<and> (if \<not> localManifest fl
            then pLoadUpdatedManifest P (jirix\<lparr>Attempts := attempts fl\<rparr>) lp (localManifest fl)
            else pLoadManifestFile P (jirix\<lparr>Attempts := attempts fl\<rparr>) (JiriManifestFile jirix) lp
                   (localManifest fl)) = Inr (hs, pkgs)
        \<and> pRunHooks P (jirix\<lparr>Attempts := attempts fl\<rparr>) hs (hookTimeout fl) = Some e \<longrightarrow>
        fst (runHooks P fl jirix args) = Some e
        \<and> (\<forall>x ks t. FetchPackages x ks t \<notin> set (snd (snd (runHooks P fl jirix args))))"
    by (auto simp: runHooks_def Let_def)
qed

theorem RunHooks_aggregate_error_witness:
  "RunHooks flakyAttempt (someX\<lparr>Attempts := 2\<rparr>) [hookA, hookB] = Some [''b'']
   \<and> RunHooks flakyAttempt (someX\<lparr>Attempts := 2\<rparr>) [hookA] = None
   \<and> runHooks someProjectPkg someRunHooksFlags someX [] =
       (Some ''hooks failed: b'', someX\<lparr>Attempts := 2\<rparr>,
        [LocalProjects, LoadUpdatedManifest, RunHooksCall (someX\<lparr>Attempts := 2\<rparr>) [hookA, hookB] 5])"
  using RunHooks_aggregate_error [where attempt = flakyAttempt and jirix = "someX\<lparr>Attempts := 2\<rparr>"
      and hooks = "[hookA, hookB]"]
    RunHooks_aggregate_error [where attempt = flakyAttempt and jirix = "someX\<lparr>Attempts := 2\<rparr>"
      and hooks = "[hookA]"]
    RunHooks_aggregate_error [where P = someProjectPkg and jirix = someX and fl = someRunHooksFlags
      and lp = "()" and hs = "[hookA, hookB]" and pkgs = "[''pkg'']" and e = "''hooks failed: b''"
      and args = "[]"]
  by (simp add: RunHooks_def runHooks_def Let_def flakyAttempt_def hookA_def hookB_def someX_def
      someProjectPkg_def someRunHooksFlags_def hooksErrorText_def numeral_2_eq_2)

section \<open>Properties of the lockfile\<close>

lemma addPin_distinct:
  "distinct (map fst acc) \<Longrightarrow> addPin ig acc p = Inr acc' \<Longrightarrow> distinct (map fst acc')"
  by (cases p) (auto simp: map_of_eq_None_iff distinct_update split: option.splits if_splits)

lemma addPins_distinct:
  "distinct (map fst acc) \<Longrightarrow> addPins ig acc ps = Inr acc' \<Longrightarrow> distinct (map fst acc')"
proof (induction ps arbitrary: acc)
  case Nil
  then show ?case by simp
next
  case (Cons p ps)
  then show ?case
    by (auto split: sum.splits dest: addPin_distinct)
qed

lemma unionPins_distinct:
  "distinct (map fst acc) \<Longrightarrow> unionPins ig resolve acc ms = Inr acc' \<Longrightarrow> distinct (map fst acc')"
proof (induction ms arbitrary: acc)
  case Nil
  then show ?case by simp
next
  case (Cons m ms)
  then show ?case
    by (auto split: sum.splits dest: addPins_distinct)
qed

lemma enum_distinct:
  assumes "distinct (map fst u)" "set w = set u" "length w = length u"
  shows "distinct (map fst w)"
proof -
  have du: "distinct u" using assms(1) by (simp add: distinct_map)
  have "card (set w) = length w"
    using du assms(2,3) by (simp add: distinct_card)
  then have "distinct w" by (rule card_distinct)
  moreover have "inj_on fst (set w)"
    using assms(1,2) by (simp add: distinct_map)
  ultimately show ?thesis by (simp add: distinct_map)
qed

lemma sort_key_enum_unique:
  assumes "distinct (map fst u)"
    and "set w1 = set u" "length w1 = length u"
    and "set w2 = set u" "length w2 = length u"
  shows "sort_key fst w1 = sort_key fst w2"
proof (rule map_sorted_distinct_set_unique [where f = fst])
  show "inj_on fst (set (sort_key fst w1) \<union> set (sort_key fst w2))"
    using assms by (simp add: distinct_map)
  show "sorted (map fst (sort_key fst w1))" by simp
  show "sorted (map fst (sort_key fst w2))" by simp
  show "distinct (map fst (sort_key fst w1))"
    using enum_distinct [OF assms(1,2,3)] by (simp add: distinct_map)
  show "distinct (map fst (sort_key fst w2))"
    using enum_distinct [OF assms(1,4,5)] by (simp add: distinct_map)
  show "set (sort_key fst w1) = set (sort_key fst w2)"
    using assms by simp
qed

text \<open>
  Claim C1. The generated lockfile does not depend on the order in which the united
  pins are enumerated: two runs on the same inputs, whatever order each of them
  meets, give the same result, byte for byte. The reason is that the lockfile is the
  mapping sorted by key, with every key once, and the output is its serialisation.
\<close>

theorem Generate_deterministic:
  assumes "\<And>u. set (enum1 u) = set u \<and> length (enum1 u) = length u"
    and "\<And>u. set (enum2 u) = set u \<and> length (enum2 u) = length u"
  shows "Generate enum1 resolve ignore manifestPaths = Generate enum2 resolve ignore manifestPaths
    \<and> (\<forall>l. LockFile enum1 resolve ignore manifestPaths = Inr l \<longrightarrow>
          sorted (map fst l) \<and> distinct (map fst l)
          \<and> Generate enum1 resolve ignore manifestPaths = Inr (serialise l))"
proof (cases "unionPins ignore resolve [] manifestPaths")
  case (Inl e)
  then show ?thesis by (simp add: Generate_def LockFile_def)
next
  case (Inr u)
  have d: "distinct (map fst u)"
    using unionPins_distinct [OF _ Inr] by simp
  have eq: "sort_key fst (enum1 u) = sort_key fst (enum2 u)"
    using sort_key_enum_unique [OF d, of "enum1 u" "enum2 u"] assms by simp
  have d1: "distinct (map fst (sort_key fst (enum1 u)))"
    using enum_distinct [OF d, of "enum1 u"] assms(1) by (simp add: distinct_map)
  show ?thesis
    using Inr eq d1 by (auto simp: Generate_def LockFile_def)
qed


theorem Generate_deterministic_witness:
  "Generate id someResolve True [''a.manifest'', ''b.manifest'']
     = Generate rev someResolve True [''a.manifest'', ''b.manifest'']
   \<and> LockFile id someResolve True [''a.manifest'', ''b.manifest'']
     = Inr [(''absl'', ''r7''), (''cipd/go'', ''id9''), (''zlib'', ''r2'')]
   \<and> sorted (map fst [(''absl'', ''r7''), (''cipd/go'', ''id9''), (''zlib'', ''r2'')])"
proof -
  have l: "LockFile id someResolve True [''a.manifest'', ''b.manifest'']
     = Inr [(''absl'', ''r7''), (''cipd/go'', ''id9''), (''zlib'', ''r2'')]"
    by code_simp
  show ?thesis
    using Generate_deterministic [where ?enum1.0 = id and ?enum2.0 = rev and resolve = someResolve
        and ignore = True and manifestPaths = "[''a.manifest'', ''b.manifest'']"] l
    by simp
qed

lemma addPins_False_Inl:
  "addPins False acc ps = Inl e \<Longrightarrow> \<exists>k v v'. e = LockConflictError k v v'"
proof (induction ps arbitrary: acc)
  case Nil
  then show ?case by simp
next
  case (Cons p ps)
  then show ?case
    by (cases p) (auto split: sum.splits option.splits if_splits)
qed

lemma addPins_False_Inr:
  "addPins False acc ps = Inr acc' \<Longrightarrow>
   (\<forall>k v. map_of acc k = Some v \<longrightarrow> map_of acc' k = Some v)
   \<and> (\<forall>(k, v) \<in> set ps. map_of acc' k = Some v)"
proof (induction ps arbitrary: acc)
  case Nil
  then show ?case by simp
next
  case (Cons p ps)
  obtain k v where p: "p = (k, v)" by (cases p)
  from Cons.prems p obtain acc1 where
    a1: "addPin False acc (k, v) = Inr acc1" and a2: "addPins False acc1 ps = Inr acc'"
    by (auto split: sum.splits)
  have keep: "\<forall>k' v'. map_of acc k' = Some v' \<longrightarrow> map_of acc1 k' = Some v'"
    using a1 by (auto split: option.splits if_splits)
  have new: "map_of acc1 k = Some v"
    using a1 by (auto simp: map_add_def split: option.splits if_splits)
  from Cons.IH [OF a2] keep new p show ?case by auto
qed

lemma addPin_True:
  "\<exists>acc'. addPin True acc (k, v) = Inr acc' \<and> map_of acc' = (map_of acc)(k \<mapsto> v)"
  by (auto simp: update_conv' fun_eq_iff map_add_def split: option.splits)

lemma addPins_True:
  "\<exists>acc'. addPins True acc ps = Inr acc' \<and> map_of acc' = map_of acc ++ map_of (rev ps)"
proof (induction ps arbitrary: acc)
  case Nil
  then show ?case by simp
next
  case (Cons p ps)
  obtain k v where p: "p = (k, v)" by (cases p)
  obtain acc1 where a1: "addPin True acc (k, v) = Inr acc1"
    and m1: "map_of acc1 = (map_of acc)(k \<mapsto> v)"
    using addPin_True by blast
  obtain acc' where a2: "addPins True acc1 ps = Inr acc'"
    and m2: "map_of acc' = map_of acc1 ++ map_of (rev ps)"
    using Cons.IH by blast
  have "map_of acc' = map_of acc ++ map_of (rev (p # ps))"
    using m1 m2 p by (auto simp: fun_eq_iff map_add_def split: option.splits)
  then show ?case using a1 a2 p by simp
qed

lemma unionPins_True_no_conflict:
  "unionPins True resolve acc ms \<noteq> Inl (LockConflictError k v v')"
proof (induction ms arbitrary: acc)
  case Nil
  then show ?case by simp
next
  case (Cons m ms)
  show ?case
  proof (cases "resolve m")
    case (Inl e)
    then show ?thesis by simp
  next
    case (Inr ps)
    obtain acc' where "addPins True acc ps = Inr acc'"
      using addPins_True by blast
    then show ?thesis using Inr Cons by simp
  qed
qed


lemma foldl_append_each: "foldl (\<lambda>fs m. fs @ [m]) acc args = acc @ args"
  by (induction args arbitrary: acc) auto

lemma runResolve_eq:
  "runResolve generate fl jirix args =
     (generate (jirix\<lparr>IgnoreLockConflicts := True\<rparr>)
        (if args = [] then [JiriManifestFile jirix] else args)
        (lockFilePath fl) (enableProjectLock fl) (enablePackageLock fl) (localManifestFlag fl),
      jirix\<lparr>IgnoreLockConflicts := True\<rparr>)"
  by (simp add: runResolve_def Let_def foldl_append_each)

lemma Generate_True_no_conflict:
  "Generate enum resolve True ms \<noteq> Inl (LockConflictError k v v')"
  using unionPins_True_no_conflict [of resolve "[]" ms k v v']
  by (auto simp: Generate_def LockFile_def split: sum.splits)

text \<open>
  Claim C2. For two inputs that pin one key to different values, the generation
  without suppression fails with a \<open>LockConflictError\<close>; with suppression it
  succeeds, and in the lockfile the pins of the later input win over those of the
  earlier one. The resolve command sets \<open>IgnoreLockConflicts\<close> before it calls the
  generator, whatever its arguments, so it never fails with a lock conflict.
\<close>

theorem lock_conflict_detection:
  assumes "resolve m1 = Inr ps" and "resolve m2 = Inr qs"
  shows "(pinsConflict ps qs \<longrightarrow>
            (\<exists>k v v'. Generate enum resolve False [m1, m2] = Inl (LockConflictError k v v')))
    \<and> ((\<forall>u. set (enum u) = set u \<and> length (enum u) = length u) \<longrightarrow>
            (\<exists>l. LockFile enum resolve True [m1, m2] = Inr l
                 \<and> map_of l = map_of (rev ps) ++ map_of (rev qs)
                 \<and> Generate enum resolve True [m1, m2] = Inr (serialise l)))
    \<and> runResolve (GenerateJiriLockFile enum resolve3) fl jirix args =
         (Generate enum (resolve3 (enableProjectLock fl) (enablePackageLock fl) (localManifestFlag fl))
            True (if args = [] then [JiriManifestFile jirix] else args),
          jirix\<lparr>IgnoreLockConflicts := True\<rparr>)
    \<and> (\<forall>k v v'. fst (runResolve (GenerateJiriLockFile enum resolve3) fl jirix args)
                   \<noteq> Inl (LockConflictError k v v'))"
proof (intro conjI impI)
  assume c: "pinsConflict ps qs"
  then obtain k v v' where kv: "(k, v) \<in> set qs" and old: "map_of ps k = Some v'" and ne: "v' \<noteq> v"
    by (auto simp: pinsConflict_def list_ex_iff split: option.splits)
  show "\<exists>k v v'. Generate enum resolve False [m1, m2] = Inl (LockConflictError k v v')"
  proof (cases "addPins False [] ps")
    case (Inl e)
    then show ?thesis
      using assms addPins_False_Inl [OF Inl] by (auto simp: Generate_def LockFile_def)
  next
    case (Inr acc1)
    have in_ps: "(k, v') \<in> set ps" using old by (rule map_of_SomeD)
    have m1: "map_of acc1 k = Some v'"
      using addPins_False_Inr [OF Inr] in_ps by auto
    show ?thesis
    proof (cases "addPins False acc1 qs")
      case (Inl e)
      then show ?thesis
        using assms Inr addPins_False_Inl [OF Inl] by (auto simp: Generate_def LockFile_def)
    next
      case Inr2: (Inr acc2)
      have "map_of acc2 k = Some v'" using addPins_False_Inr [OF Inr2] m1 by blast
      moreover have "map_of acc2 k = Some v" using addPins_False_Inr [OF Inr2] kv by auto
      ultimately show ?thesis using ne by simp
    qed
  qed
next
  assume e: "\<forall>u. set (enum u) = set u \<and> length (enum u) = length u"
  obtain acc1 where a1: "addPins True [] ps = Inr acc1" and m1: "map_of acc1 = map_of [] ++ map_of (rev ps)"
    using addPins_True by blast
  obtain acc2 where a2: "addPins True acc1 qs = Inr acc2" and m2: "map_of acc2 = map_of acc1 ++ map_of (rev qs)"
    using addPins_True by blast
  have u: "unionPins True resolve [] [m1, m2] = Inr acc2"
    using assms a1 a2 by simp
  have d: "distinct (map fst acc2)"
    using unionPins_distinct [OF _ u] by simp
  have d': "distinct (map fst (sort_key fst (enum acc2)))"
    using enum_distinct [OF d, of "enum acc2"] e by (simp add: distinct_map)
  have "set (sort_key fst (enum acc2)) = set acc2" using e by simp
  then have "map_of (sort_key fst (enum acc2)) = map_of acc2"
    using d d' by (simp add: map_of_inject_set)
  then show "\<exists>l. LockFile enum resolve True [m1, m2] = Inr l
                 \<and> map_of l = map_of (rev ps) ++ map_of (rev qs)
                 \<and> Generate enum resolve True [m1, m2] = Inr (serialise l)"
    using u m1 m2 by (simp add: LockFile_def Generate_def)
next
  show "runResolve (GenerateJiriLockFile enum resolve3) fl jirix args =
         (Generate enum (resolve3 (enableProjectLock fl) (enablePackageLock fl) (localManifestFlag fl))
            True (if args = [] then [JiriManifestFile jirix] else args),
          jirix\<lparr>IgnoreLockConflicts := True\<rparr>)"
    by (simp add: runResolve_eq GenerateJiriLockFile_def)
next
  show "\<forall>k v v'. fst (runResolve (GenerateJiriLockFile enum resolve3) fl jirix args)
                   \<noteq> Inl (LockConflictError k v v')"
    by (simp add: runResolve_eq GenerateJiriLockFile_def Generate_True_no_conflict)
qed

theorem lock_conflict_detection_witness:
  "Generate id someResolve False [''a.manifest'', ''b.manifest'']
     = Inl (LockConflictError ''zlib'' ''r1'' ''r2'')
   \<and> LockFile id someResolve True [''a.manifest'', ''b.manifest'']
     = Inr [(''absl'', ''r7''), (''cipd/go'', ''id9''), (''zlib'', ''r2'')]
   \<and> fst (runResolve (GenerateJiriLockFile id someResolve3) someResolveFlags someX
            [''a.manifest'', ''b.manifest''])
     = Inr (''absl: r7'' @ nl @ ''cipd/go: id9'' @ nl @ ''zlib: r2'' @ nl)"
proof -
  have r1: "someResolve ''a.manifest'' = Inr [(''zlib'', ''r1''), (''absl'', ''r7'')]"
    by (simp add: someResolve_def)
  have r2: "someResolve ''b.manifest'' = Inr [(''zlib'', ''r2''), (''cipd/go'', ''id9'')]"
    by (simp add: someResolve_def)
  have c: "pinsConflict [(''zlib'', ''r1''), (''absl'', ''r7'')] [(''zlib'', ''r2''), (''cipd/go'', ''id9'')]"
    by (simp add: pinsConflict_def)
  have g: "Generate id someResolve False [''a.manifest'', ''b.manifest'']
     = Inl (LockConflictError ''zlib'' ''r1'' ''r2'')"
    by code_simp
  have l: "LockFile id someResolve True [''a.manifest'', ''b.manifest'']
     = Inr [(''absl'', ''r7''), (''cipd/go'', ''id9''), (''zlib'', ''r2'')]"
    by code_simp
  have s: "Generate id (someResolve3 False True False) True [''a.manifest'', ''b.manifest'']
     = Inr (''absl: r7'' @ nl @ ''cipd/go: id9'' @ nl @ ''zlib: r2'' @ nl)"
    by code_simp
  show ?thesis
    using lock_conflict_detection [OF r1 r2, where enum = id and ?resolve3.0 = someResolve3
        and fl = someResolveFlags and jirix = someX and args = "[''a.manifest'', ''b.manifest'']"]
      c g l s
    by (simp add: someResolveFlags_def)
qed

section \<open>Properties of the search for the enclosing project\<close>

lemma weight_simps:
  "weight [] = 0" "weight (c # st) = Suc (length c) + weight st"
  "weight (st @ st') = weight st + weight st'"
  by (simp_all add: weight_def)

lemma weight_butlast: "weight (butlast st) \<le> weight st"
  by (induction st) (auto simp: weight_simps)

lemma weight_Split: "weight (Split s c) = Suc (length s)"
proof (induction s)
  case Nil
  then show ?case by (simp add: weight_simps)
next
  case (Cons a s)
  then show ?case by (cases "Split s c") (auto simp: weight_simps)
qed

lemma Split_rooted: "Split (CHR ''/'' # t) (CHR ''/'') = [] # Split t (CHR ''/'')"
  by simp

lemma Split_snoc_sep: "Split (s @ [c]) c = Split s c @ [[]]"
  by (induction s) (auto simp: Split_nonempty split: list.split)

lemma weight_cleanStep: "weight (cleanStep r st c) \<le> weight st + Suc (length c)"
  using weight_butlast [of st] by (auto simp: cleanStep_def weight_simps)

lemma weight_foldl_cleanStep: "weight (foldl (cleanStep r) st cs) \<le> weight st + weight cs"
proof (induction cs arbitrary: st)
  case Nil
  then show ?case by simp
next
  case (Cons c cs)
  have "weight (foldl (cleanStep r) (cleanStep r st c) cs) \<le> weight (cleanStep r st c) + weight cs"
    by (rule Cons.IH)
  also have "\<dots> \<le> weight st + Suc (length c) + weight cs"
    using weight_cleanStep [of r st c] by simp
  finally show ?case by (simp add: weight_simps)
qed

lemma length_Join: "length (Join st ''/'') = weight st - 1"
proof (induction st "''/''" rule: Join.induct)
  case 1
  then show ?case by (simp add: weight_simps)
next
  case (2 w)
  then show ?case by (simp add: weight_simps)
next
  case (3 w v ws)
  then show ?case by (simp add: weight_simps)
qed

lemma cleanStep_empty: "cleanStep r st [] = st"
  by (simp add: cleanStep_def)

lemma Clean_rooted:
  "Clean (CHR ''/'' # t) = ''/'' @ Join (foldl (cleanStep True) [] (Split t (CHR ''/''))) ''/''"
  by (simp add: Clean_def rooted_def Let_def cleanStep_empty)

lemma Clean_rooted_length: "length (Clean (CHR ''/'' # t)) \<le> Suc (length t)"
proof -
  have "weight (foldl (cleanStep True) [] (Split t (CHR ''/''))) \<le> Suc (length t)"
    using weight_foldl_cleanStep [of True "[]" "Split t (CHR ''/'')"]
    by (simp add: weight_Split weight_simps)
  then show ?thesis
    by (simp add: Clean_rooted length_Join)
qed

lemma Clean_rooted_snoc: "Clean (CHR ''/'' # t @ ''/'') = Clean (CHR ''/'' # t)"
  by (simp add: Clean_rooted Split_snoc_sep cleanStep_empty)

lemma rooted_Clean: "rooted p \<Longrightarrow> rooted (Clean p)"
  by (cases p) (auto simp: rooted_def Clean_rooted)

lemma rooted_Cons: "rooted p \<longleftrightarrow> (\<exists>t. p = CHR ''/'' # t)"
  by (cases p) (auto simp: rooted_def)

lemma Dir_shorter:
  assumes "rooted p" and "p \<noteq> ''/''"
  shows "rooted (Dir p) \<and> length (Dir p) < length p"
proof -
  obtain t where p: "p = CHR ''/'' # t" using assms(1) by (auto simp: rooted_Cons)
  have t: "t \<noteq> []" using assms(2) p by simp
  let ?P = "\<lambda>c. c \<noteq> CHR ''/''"
  let ?d = "rev (dropWhile ?P (rev t))"
  have pre: "rev (dropWhile ?P (rev p)) = CHR ''/'' # ?d"
    by (simp add: p dropWhile_append3)
  have len: "length ?d \<le> length t"
    by (simp add: length_dropWhile_le [of ?P "rev t", simplified])
  show ?thesis
  proof (cases "last t = CHR ''/''")
    case True
    then obtain t' where t': "t = t' @ ''/''"
      using t by (metis append_butlast_last_id)
    then have "?d = t" by simp
    then have "Dir p = Clean (CHR ''/'' # t')"
      using pre t' by (simp add: Dir_def Clean_rooted_snoc)
    moreover have "length (Clean (CHR ''/'' # t')) \<le> Suc (length t')"
      by (rule Clean_rooted_length)
    ultimately show ?thesis
      using p t' rooted_Clean [of "CHR ''/'' # t'"] by (simp add: rooted_def)
  next
    case False
    then have "?P (hd (rev t))" using t by (simp add: hd_rev)
    then have "length (dropWhile ?P (rev t)) < length (rev t)"
      using t by (cases "rev t") (auto simp: le_imp_less_Suc length_dropWhile_le)
    then have "length ?d < length t" by simp
    moreover have "length (Clean (CHR ''/'' # ?d)) \<le> Suc (length ?d)"
      by (rule Clean_rooted_length)
    ultimately show ?thesis
      using p pre rooted_Clean [of "CHR ''/'' # ?d"] by (simp add: Dir_def rooted_def)
  qed
qed

lemma findProject_boundary:
  "atBoundary root dir \<Longrightarrow> findProject IL PA root dir = Some (NotFound dir)"
  by (subst findProject.simps) (auto simp: atBoundary_def)

lemma findProject_probe_failed:
  "\<not> atBoundary root dir \<Longrightarrow> IL dir = Inl e \<Longrightarrow>
   findProject IL PA root dir = Some (IsLocalFailed dir e)"
  by (subst findProject.simps) (auto simp: atBoundary_def)

lemma findProject_up:
  "\<not> atBoundary root dir \<Longrightarrow> IL dir = Inr False \<Longrightarrow>
   findProject IL PA root dir = findProject IL PA root (Dir dir)"
  by (subst findProject.simps) (auto simp: atBoundary_def)

lemma findProject_found:
  "\<not> atBoundary root dir \<Longrightarrow> IL dir = Inr True \<Longrightarrow> PA dir = Inr p \<Longrightarrow>
   findProject IL PA root dir = Some (Found dir p)"
  by (subst findProject.simps) (auto simp: atBoundary_def)

lemma findProject_load_failed:
  "\<not> atBoundary root dir \<Longrightarrow> IL dir = Inr True \<Longrightarrow> PA dir = Inl e \<Longrightarrow>
   findProject IL PA root dir = Some (ProjectAtPathFailed dir e)"
  by (subst findProject.simps) (auto simp: atBoundary_def)

lemma findProject_stuck:
  assumes "IL dir = Inr False" and "Dir dir = dir" and "\<not> atBoundary root dir"
  shows "findProject IL PA root dir = None"
proof (rule ccontr)
  assume "findProject IL PA root dir \<noteq> None"
  then obtain y where y: "findProject IL PA root dir = Some y" by auto
  have "\<not> (IL dir = Inr False \<and> Dir dir = dir \<and> \<not> atBoundary root dir)"
  proof (rule findProject.raw_induct
      [where P = "\<lambda>a b c d z. \<not> (a d = Inr False \<and> Dir d = d \<and> \<not> atBoundary c d)", OF _ y])
    fix f a b c d z
    assume ih: "\<And>il pa rt dr z'. f il pa rt dr = Some z' \<Longrightarrow>
                 \<not> (il dr = Inr False \<and> Dir dr = dr \<and> \<not> atBoundary rt dr)"
      and body: "(if d \<noteq> Dir c \<and> d \<noteq> ''/''
          then case a d of Inl e \<Rightarrow> Some (IsLocalFailed d e)
               | Inr isLocal \<Rightarrow>
                   if \<not> isLocal then f a b c (Dir d)
                   else (case b d of Inl e \<Rightarrow> Some (ProjectAtPathFailed d e)
                         | Inr p \<Rightarrow> Some (Found d p))
          else Some (NotFound d)) = Some z"
    show "\<not> (a d = Inr False \<and> Dir d = d \<and> \<not> atBoundary c d)"
    proof
      assume s: "a d = Inr False \<and> Dir d = d \<and> \<not> atBoundary c d"
      then have "f a b c d = Some z"
        using body by (simp add: atBoundary_def)
      then have "\<not> (a d = Inr False \<and> Dir d = d \<and> \<not> atBoundary c d)"
        by (rule ih)
      then show False using s by simp
    qed
  qed
  then show False using assms by simp
qed

text \<open>
  Claim C4, as amended. Started from an absolute path, as \<open>os.Getwd\<close> returns it, the
  search ends, after some number \<open>n\<close> of steps that each go to the parent directory:
  none of the directories passed is the parent of the workspace root or the root of
  the file system, and none is a local project. It ends without a project at the
  first directory that is the parent of the workspace root or the root of the file
  system; with the project at the first directory that is a local project, when the
  project there can be loaded; and with an error when one of the two probes fails at
  the directory reached.
\<close>

theorem findProject_walks_up:
  assumes "rooted dir"
  shows "\<exists>n r. findProject IL PA root dir = Some r
     \<and> (\<forall>i<n. \<not> atBoundary root (ancestor i dir) \<and> IL (ancestor i dir) = Inr False)
     \<and> (case r of
          NotFound d \<Rightarrow> d = ancestor n dir \<and> atBoundary root d
        | Found d p \<Rightarrow> d = ancestor n dir \<and> \<not> atBoundary root d \<and> IL d = Inr True \<and> PA d = Inr p
        | IsLocalFailed d e \<Rightarrow> d = ancestor n dir \<and> \<not> atBoundary root d \<and> IL d = Inl e
        | ProjectAtPathFailed d e \<Rightarrow>
            d = ancestor n dir \<and> \<not> atBoundary root d \<and> IL d = Inr True \<and> PA d = Inl e)"
  using assms
proof (induction dir rule: measure_induct_rule [of length])
  case (less dir)
  let ?goal = "\<lambda>dir n r. findProject IL PA root dir = Some r
     \<and> (\<forall>i<n. \<not> atBoundary root (ancestor i dir) \<and> IL (ancestor i dir) = Inr False)
     \<and> (case r of
          NotFound d \<Rightarrow> d = ancestor n dir \<and> atBoundary root d
        | Found d p \<Rightarrow> d = ancestor n dir \<and> \<not> atBoundary root d \<and> IL d = Inr True \<and> PA d = Inr p
        | IsLocalFailed d e \<Rightarrow> d = ancestor n dir \<and> \<not> atBoundary root d \<and> IL d = Inl e
        | ProjectAtPathFailed d e \<Rightarrow>
            d = ancestor n dir \<and> \<not> atBoundary root d \<and> IL d = Inr True \<and> PA d = Inl e)"
  show ?case
  proof (cases "atBoundary root dir")
    case True
    then have "?goal dir 0 (NotFound dir)"
      by (simp add: findProject_boundary)
    then show ?thesis by blast
  next
    case nb: False
    show ?thesis
    proof (cases "IL dir")
      case (Inl e)
      then have "?goal dir 0 (IsLocalFailed dir e)"
        using nb by (simp add: findProject_probe_failed)
      then show ?thesis by blast
    next
      case (Inr isLocal)
      show ?thesis
      proof (cases isLocal)
        case True
        show ?thesis
        proof (cases "PA dir")
          case (Inl e)
          then have "?goal dir 0 (ProjectAtPathFailed dir e)"
            using nb Inr True by (simp add: findProject_load_failed)
          then show ?thesis by blast
        next
          case Inr2: (Inr p)
          then have "?goal dir 0 (Found dir p)"
            using nb Inr True by (simp add: findProject_found)
          then show ?thesis by blast
        qed
      next
        case False
        have il: "IL dir = Inr False" using Inr False by simp
        have "dir \<noteq> ''/''" using nb by (simp add: atBoundary_def)
        then have up: "rooted (Dir dir)" "length (Dir dir) < length dir"
          using Dir_shorter [OF less.prems] by simp_all
        obtain n r where g: "?goal (Dir dir) n r"
          using less.IH [OF up(2) up(1)] by blast
        have "\<forall>i<Suc n. \<not> atBoundary root (ancestor i dir) \<and> IL (ancestor i dir) = Inr False"
        proof (intro allI impI)
          fix i
          assume "i < Suc n"
          then show "\<not> atBoundary root (ancestor i dir) \<and> IL (ancestor i dir) = Inr False"
            using g nb il by (cases i) auto
        qed
        then have "?goal dir (Suc n) r"
          using g nb il by (cases r) (simp_all add: findProject_up)
        then show ?thesis by blast
      qed
    qed
  qed
qed


lemma dirs: "Dir ''/w/p/src/lib'' = ''/w/p/src''" "Dir ''/w/p/src'' = ''/w/p''" "Dir ''/w'' = ''/''"
  "Dir ''.'' = ''.''"
  by code_simp+

theorem findProject_walks_up_witness:
  "rooted ''/w/p/src/lib''
   \<and> findProject oneProject loadsProject ''/w'' ''/w/p/src/lib'' = Some (Found ''/w/p'' ''project at /w/p'')
   \<and> (\<exists>n. ''/w/p'' = ancestor n ''/w/p/src/lib''
          \<and> (\<forall>i<n. oneProject (ancestor i ''/w/p/src/lib'') = Inr False))"
proof -
  have r: "rooted ''/w/p/src/lib''" by (simp add: rooted_def)
  have f: "findProject oneProject loadsProject ''/w'' ''/w/p/src/lib'' = Some (Found ''/w/p'' ''project at /w/p'')"
    by (simp add: findProject_up findProject_found atBoundary_def dirs oneProject_def loadsProject_def)
  show ?thesis
    using findProject_walks_up [OF r, of oneProject loadsProject "''/w''"] r f
    by auto
qed

text \<open>
  Claim C4 as it is stated fails in two places. From the relative path \<open>.\<close>, whose
  parent is \<open>.\<close> again, the search never ends when \<open>.\<close> is not a project. And at
  the first directory that is a local project the search does not end successfully
  when the project there cannot be loaded: it ends with that error.
\<close>

theorem findProject_counterexample:
  "findProject noProject loadsProject ''/w'' ''.'' = None
   \<and> findProject oneProject failingLoad ''/w'' ''/w/p/src''
       = Some (ProjectAtPathFailed ''/w/p'' ''cannot read the project metadata'')"
  by (simp add: findProject_stuck findProject_up findProject_load_failed atBoundary_def dirs
      noProject_def oneProject_def failingLoad_def)

end
